theory Spec2Isabelle
  imports Complex_Main "HOL-Library.Sublist" "HOL-Library.AList" "HOL-Library.Log_Nat"
begin

section \<open>Content analysis tool: text primitives\<close>

text \<open>
  The development embeds \<^verbatim>\<open>seo_agency/tools/content_analysis_tool.py\<close>.
  Text is a \<^typ>\<open>string\<close>. The character classes below (\<^verbatim>\<open>str.isspace\<close>,
  the regex class \<^verbatim>\<open>\w\<close>, \<^verbatim>\<open>str.lower\<close>) are those of Python on ASCII
  text; a character outside ASCII is neither white space nor a word character and is
  its own lower case. The bullet U+2022 is written as its UTF-8 bytes.

  Python computes the averages, the densities and the keyword score in double
  precision. A number of the model is a \<^typ>\<open>rat\<close>. The keyword density is computed
  as the double that Python gets (section \<open>Doubles\<close>), because the result dictionary
  stores it rounded to two decimals, which depends on the bits of the double. The other
  quotients (words per sentence, the share of long paragraphs, the keyword score) are
  computed exactly: each is a single correctly rounded division of two counts, compared
  with (or scaled to) a threshold that an exact quotient either meets exactly or misses
  by at least the reciprocal of a count, so the exact value and the double take the same
  branch and have the same integer part for every text whose counts stay far below
  \<open>2 ^ 40\<close>.
\<close>

definition isspace :: "char \<Rightarrow> bool" where
  "isspace c \<longleftrightarrow> c \<in> set [CHR 0x09, CHR 0x0A, CHR 0x0B, CHR 0x0C, CHR 0x0D,
                           CHR 0x1C, CHR 0x1D, CHR 0x1E, CHR 0x1F, CHR 0x20]"

definition uppers :: string where
  "uppers = ''ABCDEFGHIJKLMNOPQRSTUVWXYZ''"

definition lowers :: string where
  "lowers = ''abcdefghijklmnopqrstuvwxyz''"

definition is_word_char :: "char \<Rightarrow> bool" where
  \<comment> \<open>the regex class \<^verbatim>\<open>\w\<close>\<close>
  "is_word_char c \<longleftrightarrow> c \<in> set (uppers @ lowers @ ''0123456789_'')"

definition lower_char :: "char \<Rightarrow> char" where
  "lower_char c = (case map_of (zip uppers lowers) c of Some d \<Rightarrow> d | None \<Rightarrow> c)"

definition lower :: "string \<Rightarrow> string" where
  \<comment> \<open>\<^verbatim>\<open>str.lower()\<close>\<close>
  "lower s = map lower_char s"

fun split_acc :: "string \<Rightarrow> string \<Rightarrow> string list" where
  "split_acc cur [] = (if cur = [] then [] else [cur])"
| "split_acc cur (c # cs) =
     (if isspace c then (if cur = [] then split_acc [] cs else cur # split_acc [] cs)
      else split_acc (cur @ [c]) cs)"

definition split :: "string \<Rightarrow> string list" where
  \<comment> \<open>\<^verbatim>\<open>str.split()\<close>: the maximal runs of characters that are not white space\<close>
  "split s = split_acc [] s"

definition strip :: "string \<Rightarrow> string" where
  \<comment> \<open>\<^verbatim>\<open>str.strip()\<close>\<close>
  "strip s = rev (dropWhile isspace (rev (dropWhile isspace s)))"

fun split_nn_acc :: "string \<Rightarrow> string \<Rightarrow> string list" where
  "split_nn_acc cur [] = [cur]"
| "split_nn_acc cur [c] = [cur @ [c]]"
| "split_nn_acc cur (c # d # cs) =
     (if c = CHR 0x0A \<and> d = CHR 0x0A then cur # split_nn_acc [] cs
      else split_nn_acc (cur @ [c]) (d # cs))"

definition split_nn :: "string \<Rightarrow> string list" where
  \<comment> \<open>\<^verbatim>\<open>content.split('\n\n')\<close>: the separator is taken left to right, empty pieces kept\<close>
  "split_nn s = split_nn_acc [] s"

definition is_sentence_end :: "char \<Rightarrow> bool" where
  \<comment> \<open>the regex class \<^verbatim>\<open>[.!?]\<close>\<close>
  "is_sentence_end c \<longleftrightarrow> c = CHR ''.'' \<or> c = CHR ''!'' \<or> c = CHR ''?''"

function re_split_acc :: "string \<Rightarrow> string \<Rightarrow> string list" where
  "re_split_acc cur [] = [cur]"
| "re_split_acc cur (c # cs) =
     (if is_sentence_end c then cur # re_split_acc [] (dropWhile is_sentence_end cs)
      else re_split_acc (cur @ [c]) cs)"
  by pat_completeness auto
termination
  by (relation "measure (\<lambda>(cur, s). length s)")
     (auto simp: less_Suc_eq_le length_dropWhile_le)

definition re_split_sentences :: "string \<Rightarrow> string list" where
  \<comment> \<open>\<^verbatim>\<open>re.split(r'[.!?]+', content)\<close>: cut at each maximal run of end marks\<close>
  "re_split_sentences s = re_split_acc [] s"

function str_count :: "string \<Rightarrow> string \<Rightarrow> nat" where
  "str_count sub [] = (if sub = [] then 1 else 0)"
| "str_count sub (c # cs) =
     (if sub = [] then 1 + str_count sub cs
      else if prefix sub (c # cs) then 1 + str_count sub (drop (length sub - 1) cs)
      else str_count sub cs)"
  by pat_completeness auto
termination
  by (relation "measure (\<lambda>(sub, s). length s)") (auto simp: less_Suc_eq_le)

text \<open>
  \<^verbatim>\<open>str.count(sub)\<close>: the occurrences of \<open>sub\<close> found left to right without
  overlap; the empty string occurs once at every position, the end included.
\<close>

fun str_in :: "string \<Rightarrow> string \<Rightarrow> bool" where
  \<comment> \<open>\<^verbatim>\<open>sub in s\<close>\<close>
  "str_in sub [] \<longleftrightarrow> sub = []"
| "str_in sub (c # cs) \<longleftrightarrow> prefix sub (c # cs) \<or> str_in sub cs"

definition is_w :: "char option \<Rightarrow> bool" where
  \<comment> \<open>a position outside the string counts as a character that is not a word character\<close>
  "is_w x = (case x of None \<Rightarrow> False | Some c \<Rightarrow> is_word_char c)"

definition word_boundary :: "char option \<Rightarrow> char option \<Rightarrow> bool" where
  \<comment> \<open>the regex assertion \<^verbatim>\<open>\b\<close> between the previous character and the next one\<close>
  "word_boundary prev nxt \<longleftrightarrow> is_w prev \<noteq> is_w nxt"

definition char_at :: "string \<Rightarrow> nat \<Rightarrow> char option" where
  "char_at s i = (if i < length s then Some (s ! i) else None)"

function findall_word :: "string \<Rightarrow> char option \<Rightarrow> string \<Rightarrow> nat" where
  "findall_word kw prev [] = (if kw = [] \<and> word_boundary prev None then 1 else 0)"
| "findall_word kw prev (c # cs) =
     (if kw = [] then
        (if word_boundary prev (Some c) then 1 else 0) + findall_word kw (Some c) cs
      else if prefix kw (c # cs) \<and> word_boundary prev (Some c)
              \<and> word_boundary (Some (last kw)) (char_at (c # cs) (length kw))
      then 1 + findall_word kw (Some (last kw)) (drop (length kw - 1) cs)
      else findall_word kw (Some c) cs)"
  by pat_completeness auto
termination
  by (relation "measure (\<lambda>(kw, b, s). length s)") (auto simp: less_Suc_eq_le)

text \<open>
  \<open>findall_word kw None s\<close> is
  \<^verbatim>\<open>len(re.findall(r'\b' + re.escape(kw) + r'\b', s))\<close>: the scan goes left to
  right, a match needs the literal \<open>kw\<close> with a word boundary on each side, and the
  scan resumes behind a match. For the empty keyword the pattern matches the empty string
  at every word boundary.
\<close>

section \<open>Errors\<close>

text \<open>
  An exception of the source is a value: a function that can raise returns
  \<open>error + 'a\<close>, \<open>Inl\<close> carrying the exception. \<open>TypeError\<close> carries the
  comparison operator that met \<^verbatim>\<open>None\<close>, \<open>AttributeError\<close> the name of the type
  that has no \<^verbatim>\<open>get\<close>.
\<close>

datatype error = ZeroDivisionError | TypeError string | AttributeError string

definition truediv :: "nat \<Rightarrow> nat \<Rightarrow> error + rat" where
  \<comment> \<open>\<^verbatim>\<open>a / b\<close> on two counts: the exact quotient, or the exception\<close>
  "truediv a b = (if b = 0 then Inl ZeroDivisionError else Inr (of_nat a / of_nat b))"

section \<open>Doubles\<close>

text \<open>
  A double is the rational number it stands for. \<open>double x\<close> is the double nearest to
  \<open>x\<close>, ties going to the even significand, as every arithmetic operation of Python
  rounds its exact result (53 bits of significand; the values of this tool are far from
  overflow and from the subnormal range). \<open>binade x\<close> is the exponent \<open>e\<close> with
  \<open>2 ^ e \<le> x < 2 ^ (e + 1)\<close>.
\<close>

definition round_half_even :: "rat \<Rightarrow> int" where
  "round_half_even x =
     (let f = \<lfloor>x\<rfloor>; r = x - of_int f
      in if r < 1 / 2 then f else if r > 1 / 2 then f + 1 else if even f then f else f + 1)"

definition binade :: "rat \<Rightarrow> int" where
  "binade x =
     (let (a, b) = quotient_of x; d = bitlen a - bitlen b
      in if of_int a \<ge> of_int b * (2::rat) powi d then d else d - 1)"

definition double :: "rat \<Rightarrow> rat" where
  "double x =
     (if x = 0 then 0
      else let ulp = 2 powi (binade \<bar>x\<bar> - 52)
           in of_int (round_half_even (x / ulp)) * ulp)"

definition py_round :: "nat \<Rightarrow> rat \<Rightarrow> rat" where
  \<comment> \<open>\<^verbatim>\<open>round(x, ndigits)\<close> of a double: the decimal nearest to the exact value of
      \<open>x\<close>, ties to even, and then the double nearest to that decimal\<close>
  "py_round ndigits x = double (of_int (round_half_even (x * 10 ^ ndigits)) / 10 ^ ndigits)"

section \<open>Keyword density\<close>

text \<open>
  \<^verbatim>\<open>(keyword_count / total_words) * 100\<close>: the quotient is rounded to a double, and
  so is the product.
\<close>

definition calculate_keyword_density :: "string \<Rightarrow> string \<Rightarrow> error + rat" where
  "calculate_keyword_density content keyword =
     (let total_words = length (split content) in
      if total_words = 0 then Inr 0
      else
        let keyword_count = findall_word (lower keyword) None (lower content)
        in (case truediv keyword_count total_words of
              Inl e \<Rightarrow> Inl e
            | Inr q \<Rightarrow> Inr (double (double q * 100))))"

section \<open>Readability\<close>

datatype readability_score = Good | Moderate | Difficult | Invalid

text \<open>
  The dictionary that \<^verbatim>\<open>_analyze_readability\<close> returns. The keys
  \<^verbatim>\<open>sentences\<close> and \<^verbatim>\<open>paragraphs\<close> are absent from the dictionary of the
  \<open>Invalid\<close> case. The label is decided on the average; the dictionary stores
  \<^verbatim>\<open>round(avg_words_per_sentence, 1)\<close> of the double.
\<close>

record readability =
  score :: readability_score
  average_words_per_sentence :: rat
  sentences :: "nat option"
  paragraphs :: "nat option"
  r_assessment :: string
  r_recommendations :: "string list"

definition stripped_nonempty :: "string list \<Rightarrow> string list" where
  \<comment> \<open>\<^verbatim>\<open>[s.strip() for s in xs if s.strip()]\<close>\<close>
  "stripped_nonempty xs = map strip (filter (\<lambda>s. strip s \<noteq> []) xs)"

definition long_paragraph_recommendation :: "string list \<Rightarrow> error + string list" where
  "long_paragraph_recommendation paras =
     (let total_paragraphs = length paras;
          long_paragraphs = length (filter (\<lambda>p. length (split p) > 100) paras)
      in if long_paragraphs > 0 \<and> total_paragraphs > 0 then
           (case truediv long_paragraphs total_paragraphs of
              Inl e \<Rightarrow> Inl e
            | Inr q \<Rightarrow>
                if q > 3 / 10
                then Inr [''Consider breaking long paragraphs into smaller chunks.'']
                else Inr [])
         else Inr [])"

definition analyze_readability :: "string \<Rightarrow> error + readability" where
  "analyze_readability content =
     (let sents = stripped_nonempty (re_split_sentences content);
          total_words = length (split content);
          total_sentences = length sents
      in if total_sentences = 0 \<or> total_words = 0 then
           Inr \<lparr> score = Invalid, average_words_per_sentence = 0,
                 sentences = None, paragraphs = None,
                 r_assessment = ''Unable to analyze empty content.'',
                 r_recommendations = [''Add meaningful content to analyze.''] \<rparr>
         else
           (case truediv total_words total_sentences of
              Inl e \<Rightarrow> Inl e
            | Inr avg \<Rightarrow>
                let (label, assessment, recs) =
                      (if avg > 25 then
                         (Difficult,
                          ''Content may be difficult to read due to long sentences.'',
                          [''Consider breaking longer sentences into shorter ones.'',
                           ''Aim for an average of 15-20 words per sentence.''])
                       else if avg > 20 then
                         (Moderate,
                          ''Content has reasonable readability but could be improved.'',
                          [''Some sentences could be shortened for better readability.''])
                       else
                         (Good,
                          ''Content has good readability with appropriate sentence length.'',
                          [''Maintain this level of clarity throughout all content.'']));
                    paras = stripped_nonempty (split_nn content)
                in (case long_paragraph_recommendation paras of
                      Inl e \<Rightarrow> Inl e
                    | Inr extra \<Rightarrow>
                        Inr \<lparr> score = label,
                              average_words_per_sentence = py_round 1 (double avg),
                              sentences = Some total_sentences,
                              paragraphs = Some (length paras),
                              r_assessment = assessment,
                              r_recommendations = recs @ extra \<rparr>)))"

section \<open>Heading structure\<close>

definition is_hash :: "char \<Rightarrow> bool" where
  "is_hash c \<longleftrightarrow> c = CHR ''#''"

definition is_newline :: "char \<Rightarrow> bool" where
  "is_newline c \<longleftrightarrow> c = CHR 0x0A"

definition not_newline :: "char \<Rightarrow> bool" where
  \<comment> \<open>the regex \<^verbatim>\<open>.\<close>, which matches every character but the line feed\<close>
  "not_newline c \<longleftrightarrow> c \<noteq> CHR 0x0A"

text \<open>
  \<open>match_heading ok s\<close> matches \<^verbatim>\<open>#...#\s+(.+)$\<close> at the front of \<open>s\<close>, where
  \<open>ok\<close> says how many \<^verbatim>\<open>#\<close> the pattern takes, and returns the captured
  text with the text behind the match. The white space of \<^verbatim>\<open>\s+\<close> may
  include line feeds. \<^verbatim>\<open>\s+\<close> is greedy: it takes the whole run of white space
  when a character follows the run, and otherwise gives characters back until the one
  it leaves to \<^verbatim>\<open>.+\<close> is not a line feed.
\<close>

definition match_heading :: "(nat \<Rightarrow> bool) \<Rightarrow> string \<Rightarrow> (string \<times> string) option" where
  "match_heading ok s =
     (let n = length (takeWhile is_hash s);
          s1 = dropWhile is_hash s;
          run = takeWhile isspace s1;
          rest = dropWhile isspace s1
      in if \<not> ok n \<or> run = [] then None
         else if rest \<noteq> [] then
           Some (takeWhile not_newline rest, dropWhile not_newline rest)
         else
           (case dropWhile is_newline (rev (tl run)) of
              [] \<Rightarrow> None
            | c # _ \<Rightarrow> Some ([c], takeWhile is_newline (rev (tl run)))))"

function findall_heading :: "(nat \<Rightarrow> bool) \<Rightarrow> bool \<Rightarrow> string \<Rightarrow> string list" where
  "findall_heading ok bol [] = []"
| "findall_heading ok bol (c # cs) =
     (case (if bol then match_heading ok (c # cs) else None) of
        Some (captured, rest) \<Rightarrow>
          captured # findall_heading ok False rest
      | None \<Rightarrow> findall_heading ok (is_newline c) cs)"
  by pat_completeness auto
termination
proof (relation "measure (\<lambda>(ok, bol, s). length s)", goal_cases)
  case 1
  show ?case by simp
next
  case (2 ok bol c cs)
  show ?case by simp
next
  case (3 ok bol c cs x2 captured rest)
  have "length rest < length (c # cs)"
  proof (cases bol)
    case False
    with 3 show ?thesis by simp
  next
    case True
    with 3 have m: "match_heading ok (c # cs) = Some (captured, rest)" by simp
    let ?s1 = "dropWhile is_hash (c # cs)"
    have a: "length ?s1 \<le> length (c # cs)" by (rule length_dropWhile_le)
    have run: "takeWhile isspace ?s1 \<noteq> []"
      using m by (auto simp: match_heading_def Let_def split: if_splits)
    have b: "length (dropWhile isspace ?s1) < length ?s1"
      using run by (cases ?s1) (auto simp: less_Suc_eq_le length_dropWhile_le split: if_splits)
    show ?thesis
    proof (cases "dropWhile isspace ?s1 = []")
      case False
      with m have "rest = dropWhile not_newline (dropWhile isspace ?s1)"
        by (auto simp: match_heading_def Let_def split: if_splits)
      moreover have "length (dropWhile not_newline (dropWhile isspace ?s1))
                       \<le> length (dropWhile isspace ?s1)"
        by (rule length_dropWhile_le)
      ultimately show ?thesis using a b by simp
    next
      case True
      with m have "rest = takeWhile is_newline (rev (tl (takeWhile isspace ?s1)))"
        by (auto simp: match_heading_def Let_def split: if_splits list.splits)
      moreover have "length (takeWhile is_newline (rev (tl (takeWhile isspace ?s1))))
                       \<le> length (tl (takeWhile isspace ?s1))"
        using length_takeWhile_le [of is_newline "rev (tl (takeWhile isspace ?s1))"] by simp
      moreover have "length (tl (takeWhile isspace ?s1)) < length (takeWhile isspace ?s1)"
        using run by (cases "takeWhile isspace ?s1") auto
      moreover have "length (takeWhile isspace ?s1) \<le> length ?s1"
        by (rule length_takeWhile_le)
      ultimately show ?thesis using a by simp
    qed
  qed
  then show ?case by simp
qed

text \<open>
  \<open>findall_heading ok True content\<close> is
  \<^verbatim>\<open>re.findall(pattern, content, re.MULTILINE)\<close> for the heading pattern told by
  \<open>ok\<close>: \<open>bol\<close> says whether \<^verbatim>\<open>^\<close> holds at the current position, and the
  scan resumes behind a match.
\<close>

record headings =
  h1_count :: nat
  h2_count :: nat
  h3_count :: nat
  h4_count :: nat
  h_assessment :: string
  h_recommendations :: "string list"

definition hierarchy_h3_message :: string where
  "hierarchy_h3_message =
     ''Fix heading hierarchy: H3 headings should be used after H2 headings, not directly after H1.''"

text \<open>
  The rules of \<^verbatim>\<open>_analyze_headings\<close> in the order of the source. A rule that
  fires gives its recommendation and what it appends to the assessment (nothing for
  the third and the fourth rule).
\<close>

definition heading_findings :: "nat \<Rightarrow> nat \<Rightarrow> nat \<Rightarrow> nat \<Rightarrow> nat \<Rightarrow> (string \<times> string) list" where
  "heading_findings h1 h2 h3 h4 content_length =
     (if h1 = 0 then
        [(''Add an H1 heading (main title) to your content.'', '' Missing H1 heading.'')]
      else if h1 > 1 then
        [(''Use only one H1 heading per page for proper SEO.'',
          '' Multiple H1 headings detected.'')]
      else [])
     @ (if h2 = 0 \<and> content_length > 300 then
          [(''Break content into sections using H2 headings.'',
            '' No section headings (H2) found.'')]
        else [])
     @ (if h2 > 0 \<and> h3 = 0 \<and> content_length > 1000 then
          [(''Consider using H3 headings for subsections within major sections.'', [])]
        else [])
     @ (if h2 > 7 then
          [(''Consider consolidating some sections - too many H2 headings can dilute focus.'',
            [])]
        else [])
     @ (if h3 > 0 \<and> h2 = 0 then
          [(hierarchy_h3_message, '' Improper heading hierarchy.'')]
        else [])
     @ (if h4 > 0 \<and> h3 = 0 then
          [(''Fix heading hierarchy: H4 headings should be used after H3 headings.'',
            '' Improper heading hierarchy.'')]
        else [])"

definition analyze_headings :: "string \<Rightarrow> headings" where
  "analyze_headings content =
     (let h1 = length (findall_heading (\<lambda>n. n = 1) True content);
          h2 = length (findall_heading (\<lambda>n. n = 2) True content);
          h3 = length (findall_heading (\<lambda>n. n = 3) True content);
          h4 = length (findall_heading (\<lambda>n. n = 4) True content);
          findings = heading_findings h1 h2 h3 h4 (length content);
          recommendations = map fst findings;
          assessment = ''Heading structure analysis:'' @ concat (map snd findings)
      in if recommendations = [] then
           \<lparr> h1_count = h1, h2_count = h2, h3_count = h3, h4_count = h4,
             h_assessment = ''Heading structure looks good.'',
             h_recommendations =
               [''Maintain consistent heading hierarchy for future content.''] \<rparr>
         else
           \<lparr> h1_count = h1, h2_count = h2, h3_count = h3, h4_count = h4,
             h_assessment = assessment, h_recommendations = recommendations \<rparr>)"

section \<open>Printing numbers\<close>

function str_nat :: "nat \<Rightarrow> string" where
  "str_nat n =
     (if n < 10 then [''0123456789'' ! n]
      else str_nat (n div 10) @ [''0123456789'' ! (n mod 10)])"
  by pat_completeness auto
termination
  by (relation "measure (\<lambda>n. n)") auto

declare str_nat.simps [simp del]

definition str_int :: "int \<Rightarrow> string" where
  \<comment> \<open>\<^verbatim>\<open>str(i)\<close>, as an f-string prints an integer\<close>
  "str_int i = (if i < 0 then CHR ''-'' # str_nat (nat (- i)) else str_nat (nat i))"

fun join_space :: "string list \<Rightarrow> string" where
  \<comment> \<open>\<^verbatim>\<open>" ".join(xs)\<close>\<close>
  "join_space [] = []"
| "join_space [x] = x"
| "join_space (x # y # ys) = x @ '' '' @ join_space (y # ys)"

section \<open>Keyword usage\<close>

text \<open>
  The assessment strings of the source, \<^verbatim>\<open>"Missing"\<close>, \<^verbatim>\<open>"Underused"\<close>,
  \<^verbatim>\<open>"Overused (potential keyword stuffing)"\<close>, \<^verbatim>\<open>"Optimal"\<close> and
  \<^verbatim>\<open>"Present"\<close>, are the constructors of \<open>usage\<close>. The label is decided on the
  density as computed; the dictionary stores \<^verbatim>\<open>round(density, 2)\<close>.
\<close>

datatype usage = Missing | Underused | Overused | Optimal | Present

record keyword_result =
  occurrences :: nat
  density :: rat
  in_headings :: bool
  in_intro :: bool
  in_url :: bool
  assessment :: usage
  recommendations :: "string list"

definition keyword_entry :: "string \<Rightarrow> string \<Rightarrow> string \<Rightarrow> string \<Rightarrow> error + keyword_result" where
  \<comment> \<open>the body of the loop over \<^verbatim>\<open>target_keywords\<close>, up to the dictionary entry\<close>
  "keyword_entry content headings_text intro keyword =
     (let keyword_lower = lower keyword;
          cnt = str_count keyword_lower (lower content)
      in case calculate_keyword_density content keyword of
           Inl e \<Rightarrow> Inl e
         | Inr dens \<Rightarrow>
             let in_h = str_in keyword_lower headings_text;
                 in_i = str_in keyword_lower intro;
                 (label, recs) =
                   (if cnt = 0 then
                      (Missing, [''Add the keyword '' @ [CHR 0x27] @ keyword @ [CHR 0x27]
                                   @ '' to your content.''])
                    else if cnt = 1 then
                      (Underused, [''Use the keyword '' @ [CHR 0x27] @ keyword @ [CHR 0x27]
                                     @ '' more frequently throughout the content.''])
                    else if dens > 3 then
                      (Overused, [''Reduce usage of '' @ [CHR 0x27] @ keyword @ [CHR 0x27]
                                    @ '' to avoid keyword stuffing.''])
                    else if dens \<ge> 1 / 2 \<and> dens \<le> 5 / 2 then (Optimal, [])
                    else (Present, []));
                 recs_h =
                   (if \<not> in_h \<and> cnt > 0 then
                      [''Include '' @ [CHR 0x27] @ keyword @ [CHR 0x27]
                         @ '' in at least one heading.'']
                    else []);
                 recs_i =
                   (if \<not> in_i \<and> cnt > 0 then
                      [''Include '' @ [CHR 0x27] @ keyword @ [CHR 0x27]
                         @ '' in the introduction section.'']
                    else [])
             in Inr \<lparr> occurrences = cnt, density = py_round 2 dens, in_headings = in_h,
                      in_intro = in_i, in_url = False, assessment = label,
                      recommendations = recs @ recs_h @ recs_i \<rparr>)"

text \<open>
  The loop over \<^verbatim>\<open>target_keywords\<close>. \<open>results\<close> is the dictionary as an
  association list in insertion order: a store under a key that is there already
  replaces the value in place, as \<open>AList.update\<close> does.
\<close>

fun keyword_loop ::
  "string \<Rightarrow> string \<Rightarrow> string \<Rightarrow> string list
     \<Rightarrow> (string \<times> keyword_result) list \<times> string list
     \<Rightarrow> error + (string \<times> keyword_result) list \<times> string list" where
  "keyword_loop content headings_text intro [] st = Inr st"
| "keyword_loop content headings_text intro (keyword # rest) (results, all_recommendations) =
     (case keyword_entry content headings_text intro keyword of
        Inl e \<Rightarrow> Inl e
      | Inr r \<Rightarrow>
          keyword_loop content headings_text intro rest
            (AList.update keyword r results, all_recommendations @ recommendations r))"

record keyword_report =
  keyword_results :: "(string \<times> keyword_result) list"
  overall_assessment :: string
  k_recommendations :: "string list"

definition count_assessment :: "usage \<Rightarrow> (string \<times> keyword_result) list \<Rightarrow> nat" where
  \<comment> \<open>\<^verbatim>\<open>sum(1 for k, v in results.items() if v["assessment"] == label)\<close>\<close>
  "count_assessment label results = length (filter (\<lambda>(k, v). assessment v = label) results)"

definition headings_text :: "string \<Rightarrow> string" where
  \<comment> \<open>the texts of the H1 to H4 headings, joined and in lower case\<close>
  "headings_text content =
     lower (join_space (findall_heading (\<lambda>n. 1 \<le> n \<and> n \<le> 4) True content))"

definition intro_text :: "string \<Rightarrow> string" where
  \<comment> \<open>the first 100 words, joined and in lower case\<close>
  "intro_text content =
     (let wds = split content in lower (join_space (take (min 100 (length wds)) wds)))"

definition check_keyword_usage :: "string \<Rightarrow> string list \<Rightarrow> error + keyword_report" where
  "check_keyword_usage content target_keywords =
     (case keyword_loop content (headings_text content) (intro_text content)
             target_keywords ([], []) of
        Inl e \<Rightarrow> Inl e
      | Inr (results, all_recommendations) \<Rightarrow>
          let optimal_count = count_assessment Optimal results;
              missing_count = count_assessment Missing results;
              overall =
                (if missing_count = length target_keywords then
                   ''No target keywords found in content.''
                 else if optimal_count = length target_keywords then
                   ''All keywords are used optimally.''
                 else
                   str_nat optimal_count @ '' of '' @ str_nat (length target_keywords)
                     @ '' keywords used optimally.'')
          in Inr \<lparr> keyword_results = results, overall_assessment = overall,
                   k_recommendations = all_recommendations \<rparr>)"

text \<open>What the report says about one keyword, and the whole-word count to compare with.\<close>

definition keyword_result_of :: "string \<Rightarrow> string list \<Rightarrow> string \<Rightarrow> keyword_result option" where
  \<comment> \<open>\<^verbatim>\<open>_check_keyword_usage(content, target_keywords)["keywords"].get(keyword)\<close>\<close>
  "keyword_result_of content target_keywords keyword =
     (case check_keyword_usage content target_keywords of
        Inl e \<Rightarrow> None
      | Inr k \<Rightarrow> map_of (keyword_results k) keyword)"

definition whole_word_count :: "string \<Rightarrow> string \<Rightarrow> nat" where
  \<comment> \<open>the case-insensitive whole-word matches of the keyword, as the density counts them\<close>
  "whole_word_count content keyword = findall_word (lower keyword) None (lower content)"

section \<open>Completeness\<close>

record completeness =
  word_count :: nat
  has_intro :: bool
  has_conclusion :: bool
  has_bullet_points :: bool
  has_cta :: bool
  c_assessment :: string
  c_recommendations :: "string list"

definition cta_phrases :: "string list" where
  "cta_phrases =
     [''learn more'', ''sign up'', ''get started'', ''contact us'', ''call now'', ''subscribe'']"

definition bullet :: string where
  \<comment> \<open>U+2022 in UTF-8\<close>
  "bullet = [CHR 0xE2, CHR 0x80, CHR 0xA2]"

definition int_lt :: "nat \<Rightarrow> int option \<Rightarrow> error + bool" where
  \<comment> \<open>\<^verbatim>\<open>word_count < min_word_count\<close>; comparing with \<^verbatim>\<open>None\<close> raises\<close>
  "int_lt a b = (case b of None \<Rightarrow> Inl (TypeError ''<'') | Some m \<Rightarrow> Inr (int a < m))"

definition int_ge :: "nat \<Rightarrow> int option \<Rightarrow> error + bool" where
  \<comment> \<open>\<^verbatim>\<open>word_count >= min_word_count\<close>\<close>
  "int_ge a b = (case b of None \<Rightarrow> Inl (TypeError ''>='') | Some m \<Rightarrow> Inr (int a \<ge> m))"

definition str_opt_int :: "int option \<Rightarrow> string" where
  "str_opt_int b = (case b of None \<Rightarrow> ''None'' | Some m \<Rightarrow> str_int m)"

definition analyze_content_completeness :: "string \<Rightarrow> int option \<Rightarrow> error + completeness" where
  "analyze_content_completeness content min_word_count =
     (let wc = length (split content);
          bullets = (str_in bullet content \<or> str_in ''*'' content \<or> str_in ''-'' content);
          paras = stripped_nonempty (split_nn content);
          intro = (case paras of [] \<Rightarrow> False | p # _ \<Rightarrow> length (split p) \<ge> 30);
          conclusion = (paras \<noteq> [] \<and> length (split (last paras)) \<ge> 30)
      in case int_lt wc min_word_count of
           Inl e \<Rightarrow> Inl e
         | Inr short \<Rightarrow>
             let r1 =
                   (if short then
                      [''Increase content length to at least '' @ str_opt_int min_word_count
                         @ '' words (currently '' @ str_nat wc @ '').'']
                    else []);
                 r2 =
                   (if \<not> intro then
                      [''Add a proper introduction section (at least 30 words).'']
                    else []);
                 r3 =
                   (if \<not> conclusion then
                      [''Add a proper conclusion section (at least 30 words).'']
                    else []);
                 r4 =
                   (if \<not> bullets \<and> wc > 500 then
                      [''Add bullet points or lists to break up long text sections.'']
                    else []);
                 cta = list_ex (\<lambda>phrase. str_in phrase (lower content)) cta_phrases;
                 r5 =
                   (if \<not> cta then
                      [''Add a clear call-to-action (CTA) to guide readers on next steps.'']
                    else []);
                 recs = r1 @ r2 @ r3 @ r4 @ r5;
                 verdict =
                   ''Content structure assessment:''
                     @ (if recs = [] then '' Content is well-structured and complete.''
                        else '' Content needs improvement ('' @ str_nat (length recs)
                               @ '' issues found).'')
             in Inr \<lparr> word_count = wc, has_intro = intro, has_conclusion = conclusion,
                      has_bullet_points = bullets, has_cta = cta,
                      c_assessment = verdict, c_recommendations = recs \<rparr>)"

section \<open>The entry point\<close>

text \<open>
  \<^verbatim>\<open>_run\<close> takes a JSON text. \<open>tool_input\<close> is what \<^verbatim>\<open>json.loads\<close> makes of
  it: \<open>Malformed\<close> when it raises \<^verbatim>\<open>JSONDecodeError\<close>; \<open>NotAnObject ty\<close> for
  a value of the Python type \<open>ty\<close> that is not a dictionary (it has no
  \<^verbatim>\<open>get\<close>); and otherwise an object that follows
  \<^verbatim>\<open>ContentAnalysisInput\<close>, each key present or not: \<^verbatim>\<open>content\<close> a string,
  \<^verbatim>\<open>target_keywords\<close> a list of strings and \<^verbatim>\<open>min_word_count\<close> an integer
  or \<^verbatim>\<open>null\<close>. Objects with values of other types are outside the model.
\<close>

datatype tool_input =
  Malformed
| NotAnObject string
| Decoded "string option" "string list option" "int option option"

text \<open>
  What \<^verbatim>\<open>_run\<close> returns is a string: an error message, or the Markdown report.
  \<open>report\<close> holds the values that the Markdown prints. The report lists
  \<^verbatim>\<open>list(set(all_recommendations))\<close>, whose order follows the hashes of the
  strings; the record keeps \<open>all_recommendations\<close> as collected.
\<close>

record report =
  total_score :: int
  score_components :: "int list"
  verdict :: string
  word_count_line :: string
  readability_part :: readability
  heading_part :: headings
  keyword_part :: keyword_report
  completeness_part :: completeness
  all_recommendations :: "string list"

datatype outcome = Failure string | Rendered report

definition report_of :: "outcome \<Rightarrow> report option" where
  \<comment> \<open>the report, when the outcome is one\<close>
  "report_of out = (case out of Rendered rep \<Rightarrow> Some rep | Failure msg \<Rightarrow> None)"

definition py_int :: "rat \<Rightarrow> int" where
  \<comment> \<open>\<^verbatim>\<open>int(x)\<close>: truncation toward zero\<close>
  "py_int x = (if x \<ge> 0 then \<lfloor>x\<rfloor> else \<lceil>x\<rceil>)"

definition readability_score :: "readability \<Rightarrow> int" where
  "readability_score r =
     (if score r = Good then 25 else if score r = Moderate then 15 else 5)"

definition heading_score :: "headings \<Rightarrow> int" where
  "heading_score h =
     (if h1_count h = 1 then 10 else 0) + (if h2_count h > 0 then 10 else 0)
       + (if h3_count h > 0 then 5 else 0)"

definition keyword_score :: "keyword_report \<Rightarrow> string list \<Rightarrow> error + int" where
  "keyword_score k target_keywords =
     (let optimal_count = count_assessment Optimal (keyword_results k)
      in case truediv optimal_count (length target_keywords) of
           Inl e \<Rightarrow> Inl e
         | Inr q \<Rightarrow> Inr (py_int (q * 25)))"

definition completeness_score :: "completeness \<Rightarrow> int option \<Rightarrow> error + int" where
  "completeness_score c min_word_count =
     (case int_ge (word_count c) min_word_count of
        Inl e \<Rightarrow> Inl e
      | Inr enough \<Rightarrow>
          Inr ((if enough then 10 else 0) + (if has_intro c then 5 else 0)
                 + (if has_conclusion c then 5 else 0)
                 + (if has_bullet_points c then 3 else 0)
                 + (if has_cta c then 2 else 0)))"

definition verdict_of :: "int \<Rightarrow> string" where
  "verdict_of score_sum =
     (if score_sum \<ge> 90 then ''**Excellent!** Your content is very well optimized for SEO.''
      else if score_sum \<ge> 70 then
        ''**Good.** Your content is generally well optimized with some room for improvement.''
      else if score_sum \<ge> 50 then
        ''**Moderate.** Your content needs several improvements to be fully optimized.''
      else
        ''**Needs Work.** Your content requires significant optimization to perform well in search.'')"

definition render_word_count :: "completeness \<Rightarrow> int option \<Rightarrow> error + string" where
  "render_word_count c min_word_count =
     (case int_lt (word_count c) min_word_count of
        Inl e \<Rightarrow> Inl e
      | Inr short \<Rightarrow>
          Inr (''- **Word Count:** '' @ str_nat (word_count c) @ '' words''
                 @ (if short then
                      '' (Recommended: '' @ str_opt_int min_word_count @ ''+ words)''
                        @ [CHR 0x0A]
                    else [CHR 0x0A])))"

definition analyse :: "string \<Rightarrow> string list \<Rightarrow> int option \<Rightarrow> error + report" where
  \<comment> \<open>the body of the \<^verbatim>\<open>try\<close> block behind the two input checks\<close>
  "analyse content target_keywords min_word_count =
     (case analyze_readability content of
        Inl e \<Rightarrow> Inl e
      | Inr r \<Rightarrow>
     let h = analyze_headings content in
     (case check_keyword_usage content target_keywords of
        Inl e \<Rightarrow> Inl e
      | Inr k \<Rightarrow>
     (case analyze_content_completeness content min_word_count of
        Inl e \<Rightarrow> Inl e
      | Inr c \<Rightarrow>
     (case keyword_score k target_keywords of
        Inl e \<Rightarrow> Inl e
      | Inr ks \<Rightarrow>
     (case completeness_score c min_word_count of
        Inl e \<Rightarrow> Inl e
      | Inr cs \<Rightarrow>
     let components = [readability_score r, heading_score h, ks, cs];
         score_sum = sum_list components
     in
     (case render_word_count c min_word_count of
        Inl e \<Rightarrow> Inl e
      | Inr line \<Rightarrow>
          Inr \<lparr> total_score = score_sum, score_components = components,
                verdict = verdict_of score_sum, word_count_line = line,
                readability_part = r, heading_part = h, keyword_part = k,
                completeness_part = c,
                all_recommendations =
                  r_recommendations r @ h_recommendations h @ k_recommendations k
                    @ c_recommendations c \<rparr>))))))"

definition str_error :: "error \<Rightarrow> string" where
  \<comment> \<open>\<^verbatim>\<open>str(e)\<close>\<close>
  "str_error e =
     (case e of
        ZeroDivisionError \<Rightarrow> ''division by zero''
      | TypeError operator \<Rightarrow>
          [CHR 0x27] @ operator @ [CHR 0x27] @ '' not supported between instances of ''
            @ [CHR 0x27] @ ''int'' @ [CHR 0x27] @ '' and '' @ [CHR 0x27] @ ''NoneType''
            @ [CHR 0x27]
      | AttributeError ty \<Rightarrow>
          [CHR 0x27] @ ty @ [CHR 0x27] @ '' object has no attribute ''
            @ [CHR 0x27] @ ''get'' @ [CHR 0x27])"

definition min_word_count_of :: "int option option \<Rightarrow> int option" where
  \<comment> \<open>\<^verbatim>\<open>input_dict.get("min_word_count", 300)\<close>\<close>
  "min_word_count_of m = (case m of None \<Rightarrow> Some 300 | Some v \<Rightarrow> v)"

definition run :: "tool_input \<Rightarrow> outcome" where
  "run tool_input =
     (case tool_input of
        Malformed \<Rightarrow> Failure ''Error: Invalid JSON input.''
      | NotAnObject ty \<Rightarrow>
          Failure (''Error executing Content Analysis tool: '' @ str_error (AttributeError ty))
      | Decoded c k m \<Rightarrow>
          let content = (case c of None \<Rightarrow> [] | Some s \<Rightarrow> s);
              target_keywords = (case k of None \<Rightarrow> [] | Some ks \<Rightarrow> ks);
              min_word_count = min_word_count_of m
          in if content = [] then Failure ''Error: No content provided for analysis.''
             else if target_keywords = [] then
               Failure ''Error: No target keywords provided for analysis.''
             else
               (case analyse content target_keywords min_word_count of
                  Inl e \<Rightarrow> Failure (''Error executing Content Analysis tool: '' @ str_error e)
                | Inr rep \<Rightarrow> Rendered rep))"

section \<open>Sample texts\<close>

definition scored_text :: string where
  \<comment> \<open>a heading line and a sentence of 39 words: 41 words by \<open>split\<close>\<close>
  "scored_text = ''# T'' @ [CHR 0x0A] @ concat (replicate 37 ''a '') @ ''seo seos.''"

definition frame_text :: string where
  \<comment> \<open>an H1, an H3 and one word\<close>
  "frame_text = ''# T'' @ [CHR 0x0A] @ ''### S'' @ [CHR 0x0A] @ ''word.''"

definition threshold_text :: string where
  \<comment> \<open>201 words, one of them the keyword \<^verbatim>\<open>kw\<close> and one containing it\<close>
  "threshold_text = concat (replicate 199 ''x '') @ ''kw kws''"

section \<open>Readability: the label\<close>

lemma long_paragraph_recommendation_total:
  "\<exists>extra. long_paragraph_recommendation paras = Inr extra"
  by (simp add: long_paragraph_recommendation_def truediv_def Let_def)

lemma analyze_readability_invalid:
  assumes "length (stripped_nonempty (re_split_sentences content)) = 0 \<or> length (split content) = 0"
  shows "\<exists>r. analyze_readability content = Inr r \<and> score r = Invalid"
  using assms by (auto simp: analyze_readability_def Let_def)

lemma analyze_readability_valid:
  assumes s: "length (stripped_nonempty (re_split_sentences content)) \<noteq> 0"
    and w: "length (split content) \<noteq> 0"
  shows "\<exists>r. analyze_readability content = Inr r \<and>
           score r =
             (let avg = rat_of_nat (length (split content))
                          / rat_of_nat (length (stripped_nonempty (re_split_sentences content)))
              in if avg > 25 then Difficult else if avg > 20 then Moderate else Good)"
proof -
  obtain extra where e: "long_paragraph_recommendation (stripped_nonempty (split_nn content)) = Inr extra"
    using long_paragraph_recommendation_total by blast
  have d: "truediv (length (split content)) (length (stripped_nonempty (re_split_sentences content)))
        = Inr (rat_of_nat (length (split content))
                 / rat_of_nat (length (stripped_nonempty (re_split_sentences content))))"
    using s by (simp add: truediv_def)
  show ?thesis
    using s w by (simp add: analyze_readability_def Let_def d e)
qed

text \<open>
  C6: the readability analysis always returns (the division by the number of sentences
  is never a division by zero); the label is \<open>Invalid\<close> exactly when there is no
  sentence or no word, and otherwise \<open>Difficult\<close> for an average above 25 words per
  sentence, \<open>Moderate\<close> for one above 20 and at most 25, and \<open>Good\<close> for one of at
  most 20.
\<close>

theorem readability_label:
  "\<exists>r. analyze_readability content = Inr r \<and>
     (score r = Invalid \<longleftrightarrow>
        length (stripped_nonempty (re_split_sentences content)) = 0 \<or> length (split content) = 0) \<and>
     score r =
       (let total_words = length (split content);
            total_sentences = length (stripped_nonempty (re_split_sentences content));
            avg = rat_of_nat total_words / rat_of_nat total_sentences
        in if total_sentences = 0 \<or> total_words = 0 then Invalid
           else if avg > 25 then Difficult
           else if avg > 20 then Moderate
           else Good)"
proof (cases "length (stripped_nonempty (re_split_sentences content)) = 0 \<or> length (split content) = 0")
  case True
  from analyze_readability_invalid [OF True] obtain r where
    "analyze_readability content = Inr r" "score r = Invalid" by blast
  with True show ?thesis by (simp add: Let_def)
next
  case False
  then have s: "length (stripped_nonempty (re_split_sentences content)) \<noteq> 0"
    and w: "length (split content) \<noteq> 0" by simp_all
  from analyze_readability_valid [OF s w] obtain r where
    r: "analyze_readability content = Inr r"
    "score r =
             (let avg = rat_of_nat (length (split content))
                          / rat_of_nat (length (stripped_nonempty (re_split_sentences content)))
              in if avg > 25 then Difficult else if avg > 20 then Moderate else Good)" by blast
  then have "score r \<noteq> Invalid" by (simp add: Let_def)
  with r False show ?thesis by (simp add: Let_def)
qed

theorem readability_label_witness:
  "\<exists>r. analyze_readability ''Hello world. This is me!'' = Inr r \<and> score r = Good"
proof -
  have s: "length (stripped_nonempty (re_split_sentences ''Hello world. This is me!'')) = 2"
    by code_simp
  have w: "length (split ''Hello world. This is me!'') = 5"
    by code_simp
  from readability_label [of "''Hello world. This is me!''"]
  have "\<exists>r. analyze_readability ''Hello world. This is me!'' = Inr r
          \<and> score r \<noteq> Invalid \<and> score r = Good"
    unfolding s w by (simp add: Let_def)
  then show ?thesis by blast
qed

section \<open>Heading structure: the hierarchy rule\<close>

lemma heading_findings_h3_without_h2:
  "0 < h3 \<Longrightarrow> h2 = 0 \<Longrightarrow>
     hierarchy_h3_message \<in> fst ` set (heading_findings h1 h2 h3 h4 n)"
  by (simp add: heading_findings_def)

lemma analyze_headings_h3_without_h2:
  assumes "0 < h3_count (analyze_headings content)"
    and "h2_count (analyze_headings content) = 0"
  shows "hierarchy_h3_message \<in> set (h_recommendations (analyze_headings content))"
proof -
  let ?h1 = "length (findall_heading (\<lambda>n. n = 1) True content)"
  let ?h2 = "length (findall_heading (\<lambda>n. n = 2) True content)"
  let ?h3 = "length (findall_heading (\<lambda>n. n = 3) True content)"
  let ?h4 = "length (findall_heading (\<lambda>n. n = 4) True content)"
  let ?f = "heading_findings ?h1 ?h2 ?h3 ?h4 (length content)"
  have c3: "h3_count (analyze_headings content) = ?h3"
    by (simp add: analyze_headings_def Let_def)
  have c2: "h2_count (analyze_headings content) = ?h2"
    by (simp add: analyze_headings_def Let_def)
  from assms c2 c3 have m: "hierarchy_h3_message \<in> fst ` set ?f"
    by (intro heading_findings_h3_without_h2) simp_all
  then have ne: "map fst ?f \<noteq> []" by auto
  have "h_recommendations (analyze_headings content) = map fst ?f"
    using ne by (simp add: analyze_headings_def Let_def)
  with m show ?thesis by simp
qed

text \<open>
  C8: for the content \<^verbatim>\<open>### Sub\<close> the heading analysis counts one H3 and no H2
  and recommends fixing the hierarchy (H3 used without H2); and for every content with
  an H3 and no H2 that recommendation is among the recommendations.
\<close>

theorem h3_without_h2_reported:
  "h3_count (analyze_headings ''### Sub'') = 1
   \<and> h2_count (analyze_headings ''### Sub'') = 0
   \<and> hierarchy_h3_message \<in> set (h_recommendations (analyze_headings ''### Sub''))
   \<and> (\<forall>content.
         0 < h3_count (analyze_headings content) \<and> h2_count (analyze_headings content) = 0
         \<longrightarrow> hierarchy_h3_message \<in> set (h_recommendations (analyze_headings content)))"
proof -
  have a: "h3_count (analyze_headings ''### Sub'') = 1" by code_simp
  have b: "h2_count (analyze_headings ''### Sub'') = 0" by code_simp
  have c: "hierarchy_h3_message \<in> set (h_recommendations (analyze_headings ''### Sub''))"
    using a b by (intro analyze_headings_h3_without_h2) simp_all
  from a b c show ?thesis
    by (simp add: analyze_headings_h3_without_h2)
qed

theorem h3_without_h2_reported_witness:
  "0 < h3_count (analyze_headings (''# Title'' @ [CHR 0x0A] @ ''### One'' @ [CHR 0x0A] @ ''### Two''))
   \<and> h2_count (analyze_headings (''# Title'' @ [CHR 0x0A] @ ''### One'' @ [CHR 0x0A] @ ''### Two'')) = 0
   \<and> hierarchy_h3_message
       \<in> set (h_recommendations
                (analyze_headings (''# Title'' @ [CHR 0x0A] @ ''### One'' @ [CHR 0x0A] @ ''### Two'')))"
proof -
  let ?c = "''# Title'' @ [CHR 0x0A] @ ''### One'' @ [CHR 0x0A] @ ''### Two''"
  have a: "h3_count (analyze_headings ?c) = 2" by code_simp
  have b: "h2_count (analyze_headings ?c) = 0" by code_simp
  from a b have "0 < h3_count (analyze_headings ?c) \<and> h2_count (analyze_headings ?c) = 0"
    by simp
  moreover from this have "hierarchy_h3_message \<in> set (h_recommendations (analyze_headings ?c))"
    using h3_without_h2_reported by blast
  ultimately show ?thesis by simp
qed

section \<open>Keyword usage: occurrences and density\<close>

text \<open>
  C1: the occurrence count of a keyword result is said to be the number of
  case-insensitive whole-word matches. The loop takes it from \<^verbatim>\<open>str.count\<close>,
  which counts substrings: for the content \<^verbatim>\<open>SEO-driven seos\<close> and the keyword
  \<^verbatim>\<open>seo\<close> the reported count is 2, the match inside \<^verbatim>\<open>seos\<close> included,
  while the whole-word matches, which the density of the same keyword is computed from,
  number 1.
\<close>

theorem occurrences_count_substrings:
  "map_option occurrences (keyword_result_of ''SEO-driven seos'' [''seo''] ''seo'') = Some 2
   \<and> whole_word_count ''SEO-driven seos'' ''seo'' = 1"
  by code_simp

text \<open>
  C4: the density is said to be the occurrence count over the number of words, times
  100. For the content \<^verbatim>\<open>seo seos\<close> (two words) and the keyword \<^verbatim>\<open>seo\<close> the
  reported count is 2 and the reported density is 50, not 100: the density divides the
  whole-word count, which is 1.
\<close>

theorem density_not_from_occurrences:
  "map_option occurrences (keyword_result_of ''seo seos'' [''seo''] ''seo'') = Some 2
   \<and> map_option density (keyword_result_of ''seo seos'' [''seo''] ''seo'') = Some 50
   \<and> length (split ''seo seos'') = 2
   \<and> whole_word_count ''seo seos'' ''seo'' = 1"
  by code_simp

section \<open>Keyword usage: the loop and the labels\<close>

lemma calculate_keyword_density_eq:
  "calculate_keyword_density content keyword =
     Inr (if length (split content) = 0 then 0
          else double (double (rat_of_nat (whole_word_count content keyword)
                                 / rat_of_nat (length (split content))) * 100))"
  by (simp add: calculate_keyword_density_def truediv_def whole_word_count_def Let_def)

lemma calculate_keyword_density_total:
  "\<exists>d. calculate_keyword_density content keyword = Inr d"
  by (simp add: calculate_keyword_density_eq)

lemma keyword_entry_fields:
  "\<exists>r d. keyword_entry content ht intro keyword = Inr r
     \<and> calculate_keyword_density content keyword = Inr d
     \<and> occurrences r = str_count (lower keyword) (lower content)
     \<and> density r = py_round 2 d
     \<and> assessment r =
         (if str_count (lower keyword) (lower content) = 0 then Missing
          else if str_count (lower keyword) (lower content) = 1 then Underused
          else if d > 3 then Overused
          else if 1 / 2 \<le> d \<and> d \<le> 5 / 2 then Optimal
          else Present)"
proof -
  obtain d where d: "calculate_keyword_density content keyword = Inr d"
    using calculate_keyword_density_total by blast
  show ?thesis
    by (simp add: keyword_entry_def d Let_def)
qed

lemma keyword_loop_total:
  "\<exists>res recs. keyword_loop content ht intro kws st = Inr (res, recs)"
proof (induction kws arbitrary: st)
  case Nil
  show ?case by (cases st) simp
next
  case (Cons kw kws)
  obtain r where r: "keyword_entry content ht intro kw = Inr r"
    using keyword_entry_fields by blast
  obtain res0 recs0 where st: "st = (res0, recs0)" by (cases st)
  show ?case using Cons.IH r st by simp
qed

lemma keyword_loop_keys:
  "keyword_loop content ht intro kws (res0, recs0) = Inr (res, recs) \<Longrightarrow>
     fst ` set res = fst ` set res0 \<union> set kws
     \<and> (distinct (map fst res0) \<longrightarrow> distinct (map fst res))"
proof (induction kws arbitrary: res0 recs0)
  case Nil
  then show ?case by simp
next
  case (Cons kw kws)
  obtain r where r: "keyword_entry content ht intro kw = Inr r"
    using keyword_entry_fields by blast
  from Cons.prems r have
    "keyword_loop content ht intro kws (AList.update kw r res0, recs0 @ recommendations r)
       = Inr (res, recs)" by simp
  from Cons.IH [OF this] show ?case
    by (auto simp: dom_update distinct_update)
qed

lemma keyword_loop_lookup:
  "keyword_loop content ht intro kws (res0, recs0) = Inr (res, recs) \<Longrightarrow>
     keyword_entry content ht intro kw = Inr r \<Longrightarrow>
     kw \<in> set kws \<or> map_of res0 kw = Some r \<Longrightarrow>
     map_of res kw = Some r"
proof (induction kws arbitrary: res0 recs0)
  case Nil
  then show ?case by simp
next
  case (Cons k kws)
  obtain rk where rk: "keyword_entry content ht intro k = Inr rk"
    using keyword_entry_fields by blast
  from Cons.prems(1) rk have step:
    "keyword_loop content ht intro kws (AList.update k rk res0, recs0 @ recommendations rk)
       = Inr (res, recs)" by simp
  have "kw \<in> set kws \<or> map_of (AList.update k rk res0) kw = Some r"
  proof (cases "kw = k")
    case True
    with rk Cons.prems(2) show ?thesis by (simp add: update_conv')
  next
    case False
    with Cons.prems(3) show ?thesis by (auto simp: update_conv')
  qed
  from Cons.IH [OF step Cons.prems(2) this] show ?case .
qed


lemma check_keyword_usage_eq:
  "keyword_loop content (headings_text content) (intro_text content) kws ([], []) = Inr (res, recs)
   \<Longrightarrow> check_keyword_usage content kws =
     Inr \<lparr> keyword_results = res,
           overall_assessment =
             (if count_assessment Missing res = length kws then
                ''No target keywords found in content.''
              else if count_assessment Optimal res = length kws then
                ''All keywords are used optimally.''
              else
                str_nat (count_assessment Optimal res) @ '' of '' @ str_nat (length kws)
                  @ '' keywords used optimally.''),
           k_recommendations = recs \<rparr>"
  by (simp add: check_keyword_usage_def Let_def)

lemma check_keyword_usage_total:
  "\<exists>k recs. check_keyword_usage content kws = Inr k
     \<and> keyword_loop content (headings_text content) (intro_text content) kws ([], [])
         = Inr (keyword_results k, recs)"
proof -
  obtain res recs where
    l: "keyword_loop content (headings_text content) (intro_text content) kws ([], []) = Inr (res, recs)"
    using keyword_loop_total by blast
  from check_keyword_usage_eq [OF l] l show ?thesis by auto
qed

lemma check_keyword_usage_summary:
  assumes "check_keyword_usage content kws = Inr k"
  shows "overall_assessment k =
           (if count_assessment Missing (keyword_results k) = length kws then
              ''No target keywords found in content.''
            else if count_assessment Optimal (keyword_results k) = length kws then
              ''All keywords are used optimally.''
            else
              str_nat (count_assessment Optimal (keyword_results k)) @ '' of ''
                @ str_nat (length kws) @ '' keywords used optimally.'')"
proof -
  obtain res recs where
    l: "keyword_loop content (headings_text content) (intro_text content) kws ([], []) = Inr (res, recs)"
    using keyword_loop_total by blast
  from check_keyword_usage_eq [OF l] assms have
    "k = \<lparr> keyword_results = res,
           overall_assessment =
             (if count_assessment Missing res = length kws then
                ''No target keywords found in content.''
              else if count_assessment Optimal res = length kws then
                ''All keywords are used optimally.''
              else
                str_nat (count_assessment Optimal res) @ '' of '' @ str_nat (length kws)
                  @ '' keywords used optimally.''),
           k_recommendations = recs \<rparr>"
    by simp
  then have "keyword_results k = res"
    and "overall_assessment k =
             (if count_assessment Missing res = length kws then
                ''No target keywords found in content.''
              else if count_assessment Optimal res = length kws then
                ''All keywords are used optimally.''
              else
                str_nat (count_assessment Optimal res) @ '' of '' @ str_nat (length kws)
                  @ '' keywords used optimally.'')"
    by simp_all
  then show ?thesis by simp
qed

lemma check_keyword_usage_keys:
  assumes "check_keyword_usage content kws = Inr k"
  shows "distinct (map fst (keyword_results k))" and "fst ` set (keyword_results k) = set kws"
proof -
  obtain k' recs where k': "check_keyword_usage content kws = Inr k'"
    and l: "keyword_loop content (headings_text content) (intro_text content) kws ([], [])
         = Inr (keyword_results k', recs)"
    using check_keyword_usage_total by blast
  from assms k' have "k' = k" by simp
  with keyword_loop_keys [OF l] show "distinct (map fst (keyword_results k))"
    and "fst ` set (keyword_results k) = set kws" by simp_all
qed

lemma keyword_results_length:
  assumes "check_keyword_usage content kws = Inr k"
  shows "length (keyword_results k) = card (set kws)"
proof -
  have "card (set (map fst (keyword_results k))) = length (map fst (keyword_results k))"
    by (rule distinct_card) (rule check_keyword_usage_keys(1) [OF assms])
  then show ?thesis
    using check_keyword_usage_keys(2) [OF assms] by simp
qed

lemma count_assessment_le: "count_assessment label res \<le> length res"
  by (simp add: count_assessment_def)

text \<open>
  C5: every target keyword has a result, and the label of the result follows the first
  rule that applies to the count of the keyword (\<^verbatim>\<open>str.count\<close> on the lower-case
  content) and to its density as \<^verbatim>\<open>_calculate_keyword_density\<close> returns it: no
  occurrence, \<open>Missing\<close>; one occurrence, \<open>Underused\<close>; a density above 3,
  \<open>Overused\<close>; a density from 0.5 to 2.5, \<open>Optimal\<close>; otherwise \<open>Present\<close>. The
  result stores that count, and that density rounded to two decimals.
\<close>

theorem usage_label_priority:
  assumes "kw \<in> set kws"
  shows "\<exists>v d. keyword_result_of content kws kw = Some v
     \<and> calculate_keyword_density content kw = Inr d
     \<and> occurrences v = str_count (lower kw) (lower content)
     \<and> density v = py_round 2 d
     \<and> assessment v =
         (if str_count (lower kw) (lower content) = 0 then Missing
          else if str_count (lower kw) (lower content) = 1 then Underused
          else if d > 3 then Overused
          else if 1 / 2 \<le> d \<and> d \<le> 5 / 2 then Optimal
          else Present)"
proof -
  obtain k recs where k: "check_keyword_usage content kws = Inr k"
    and l: "keyword_loop content (headings_text content) (intro_text content) kws ([], [])
         = Inr (keyword_results k, recs)"
    using check_keyword_usage_total by blast
  obtain r d where r: "keyword_entry content (headings_text content) (intro_text content) kw = Inr r"
    and d: "calculate_keyword_density content kw = Inr d"
    and o: "occurrences r = str_count (lower kw) (lower content)"
    and s: "density r = py_round 2 d"
    and a: "assessment r =
         (if str_count (lower kw) (lower content) = 0 then Missing
          else if str_count (lower kw) (lower content) = 1 then Underused
          else if d > 3 then Overused
          else if 1 / 2 \<le> d \<and> d \<le> 5 / 2 then Optimal
          else Present)"
    using keyword_entry_fields by blast
  from keyword_loop_lookup [OF l r] assms have "map_of (keyword_results k) kw = Some r" by simp
  with k have v: "keyword_result_of content kws kw = Some r"
    by (simp add: keyword_result_of_def)
  from v d o s a show ?thesis
    by (intro exI [of _ r] exI [of _ d] conjI)
qed

theorem usage_label_priority_witness:
  "''b'' \<in> set [''a'', ''b'']
   \<and> str_count (lower ''b'') (lower ''a b b'') = 2
   \<and> calculate_keyword_density ''a b b'' ''b'' = Inr (double (double (2 / 3) * 100))
   \<and> (\<exists>v. keyword_result_of ''a b b'' [''a'', ''b''] ''b'' = Some v
         \<and> occurrences v = 2
         \<and> density v = py_round 2 (double (double (2 / 3) * 100))
         \<and> assessment v = Overused)"
proof -
  have c: "str_count (lower ''b'') (lower ''a b b'') = 2" by code_simp
  have d: "calculate_keyword_density ''a b b'' ''b'' = Inr (double (double (2 / 3) * 100))"
    by code_simp
  have big: "double (double (2 / 3) * 100) > 3" by code_simp
  from usage_label_priority [of "''b''" "[''a'', ''b'']" "''a b b''"]
  obtain v d' where v: "keyword_result_of ''a b b'' [''a'', ''b''] ''b'' = Some v"
    and d': "calculate_keyword_density ''a b b'' ''b'' = Inr d'"
    and o: "occurrences v = str_count (lower ''b'') (lower ''a b b'')"
    and s: "density v = py_round 2 d'"
    and a: "assessment v =
         (if str_count (lower ''b'') (lower ''a b b'') = 0 then Missing
          else if str_count (lower ''b'') (lower ''a b b'') = 1 then Underused
          else if d' > 3 then Overused
          else if 1 / 2 \<le> d' \<and> d' \<le> 5 / 2 then Optimal
          else Present)"
    by auto
  from d d' have e: "d' = double (double (2 / 3) * 100)" by simp
  from a have "assessment v = Overused" unfolding c e using big by simp
  with v o s c d e show ?thesis by auto
qed

section \<open>Keyword usage: the score and duplicate keywords\<close>

lemma keyword_result_fields:
  assumes "kw \<in> set kws"
  shows "\<exists>v. keyword_result_of content kws kw = Some v
     \<and> occurrences v = str_count (lower kw) (lower content)
     \<and> density v =
         py_round 2
           (if length (split content) = 0 then 0
            else double (double (rat_of_nat (whole_word_count content kw)
                                   / rat_of_nat (length (split content))) * 100))"
proof -
  obtain k recs where k: "check_keyword_usage content kws = Inr k"
    and l: "keyword_loop content (headings_text content) (intro_text content) kws ([], [])
         = Inr (keyword_results k, recs)"
    using check_keyword_usage_total by blast
  obtain r d where r: "keyword_entry content (headings_text content) (intro_text content) kw = Inr r"
    and d: "calculate_keyword_density content kw = Inr d"
    and o: "occurrences r = str_count (lower kw) (lower content)"
    and s: "density r = py_round 2 d"
    using keyword_entry_fields by blast
  from keyword_loop_lookup [OF l r] assms have "map_of (keyword_results k) kw = Some r" by simp
  with k have v: "keyword_result_of content kws kw = Some r"
    by (simp add: keyword_result_of_def)
  from d have "d = (if length (split content) = 0 then 0
            else double (double (rat_of_nat (whole_word_count content kw)
                                   / rat_of_nat (length (split content))) * 100))"
    by (simp add: calculate_keyword_density_eq)
  with s have "density r =
         py_round 2
           (if length (split content) = 0 then 0
            else double (double (rat_of_nat (whole_word_count content kw)
                                   / rat_of_nat (length (split content))) * 100))"
    by simp
  with v o show ?thesis by blast
qed

lemma density_two_in_hundred:
  assumes "length (split content) = 100" and "whole_word_count content keyword = 2"
  shows "calculate_keyword_density content keyword = Inr 2"
proof -
  have e: "double (double (rat_of_nat 2 / rat_of_nat 100) * 100) = 2" by code_simp
  show ?thesis
    unfolding calculate_keyword_density_eq assms using e by simp
qed

lemma keyword_score_eq:
  "kws \<noteq> [] \<Longrightarrow>
     keyword_score k kws =
       Inr (py_int (rat_of_nat (count_assessment Optimal (keyword_results k))
                      / rat_of_nat (length kws) * 25))"
  by (simp add: keyword_score_def truediv_def Let_def)

lemma py_int_ratio_bounds:
  assumes "a \<le> b" and "0 < b"
  shows "0 \<le> py_int (rat_of_nat a / rat_of_nat b * 25)"
    and "py_int (rat_of_nat a / rat_of_nat b * 25) \<le> 25"
    and "a < b \<Longrightarrow> py_int (rat_of_nat a / rat_of_nat b * 25) < 25"
proof -
  let ?q = "rat_of_nat a / rat_of_nat b * 25"
  have nonneg: "0 \<le> ?q" by simp
  then have pi: "py_int ?q = \<lfloor>?q\<rfloor>" by (simp add: py_int_def)
  from nonneg show "0 \<le> py_int ?q" unfolding pi by simp
  have "rat_of_nat a / rat_of_nat b \<le> 1" using assms by simp
  then have "rat_of_nat a / rat_of_nat b * 25 \<le> 1 * 25"
    by (rule mult_right_mono) simp
  then have "?q \<le> 25" by simp
  then have "\<lfloor>?q\<rfloor> \<le> \<lfloor>25::rat\<rfloor>" by (rule floor_mono)
  then show "py_int ?q \<le> 25" unfolding pi by simp
  assume "a < b"
  then have "rat_of_nat a / rat_of_nat b < 1" using assms by simp
  then have "rat_of_nat a / rat_of_nat b * 25 < 1 * 25"
    by (rule mult_strict_right_mono) simp
  then have "?q < 25" by simp
  then have "\<lfloor>?q\<rfloor> < 25" by (simp add: floor_less_iff)
  then show "py_int ?q < 25" unfolding pi by simp
qed

lemma optimal_le_keywords:
  assumes "check_keyword_usage content kws = Inr k"
  shows "count_assessment Optimal (keyword_results k) \<le> length kws"
    and "\<not> distinct kws \<Longrightarrow> count_assessment Optimal (keyword_results k) < length kws"
proof -
  have a: "count_assessment Optimal (keyword_results k) \<le> card (set kws)"
    using count_assessment_le [of Optimal "keyword_results k"]
    by (simp add: keyword_results_length [OF assms])
  have "card (set kws) \<le> length kws" by (rule card_length)
  with a show "count_assessment Optimal (keyword_results k) \<le> length kws" by simp
  assume "\<not> distinct kws"
  then have "card (set kws) \<noteq> length kws" by (auto dest: card_distinct)
  with \<open>card (set kws) \<le> length kws\<close> have "card (set kws) < length kws" by simp
  with a show "count_assessment Optimal (keyword_results k) < length kws" by simp
qed

lemma two_absent_keywords:
  assumes "str_count (lower kw) (lower content) = 0"
  shows "\<exists>k. check_keyword_usage content [kw, kw] = Inr k
           \<and> length (keyword_results k) = 1
           \<and> overall_assessment k = ''0 of 2 keywords used optimally.''"
proof -
  obtain r and d :: rat where
    r: "keyword_entry content (headings_text content) (intro_text content) kw = Inr r"
    and a: "assessment r =
         (if str_count (lower kw) (lower content) = 0 then Missing
          else if str_count (lower kw) (lower content) = 1 then Underused
          else if d > 3 then Overused
          else if 1 / 2 \<le> d \<and> d \<le> 5 / 2 then Optimal
          else Present)"
    using keyword_entry_fields by blast
  from a assms have m: "assessment r = Missing" by simp
  have l: "keyword_loop content (headings_text content) (intro_text content) [kw, kw] ([], [])
             = Inr ([(kw, r)], recommendations r @ recommendations r)"
    using r by simp
  have s0: "str_nat 0 = ''0''" by (simp add: str_nat.simps [of 0])
  have s2: "str_nat (Suc (Suc 0)) = ''2''" by (simp add: str_nat.simps [of "Suc (Suc 0)"])
  have "count_assessment Missing [(kw, r)] = 1" "count_assessment Optimal [(kw, r)] = 0"
    using m by (simp_all add: count_assessment_def)
  with check_keyword_usage_eq [OF l] show ?thesis
    by (simp add: s0 s2)
qed

text \<open>
  C10: the results hold one entry for each distinct keyword, while the summary and the
  keyword score divide by the length of the whole list, duplicates included. So two
  equal keywords that the content does not contain give one result and the summary
  \<^verbatim>\<open>0 of 2 keywords used optimally.\<close> (not the message that no keyword was found), and
  with a duplicate in the list the keyword score stays below 25.
\<close>

theorem duplicate_keywords:
  "(\<exists>k. check_keyword_usage content kws = Inr k
        \<and> distinct (map fst (keyword_results k))
        \<and> set (map fst (keyword_results k)) = set kws
        \<and> overall_assessment k =
            (if count_assessment Missing (keyword_results k) = length kws then
               ''No target keywords found in content.''
             else if count_assessment Optimal (keyword_results k) = length kws then
               ''All keywords are used optimally.''
             else
               str_nat (count_assessment Optimal (keyword_results k)) @ '' of ''
                 @ str_nat (length kws) @ '' keywords used optimally.'')
        \<and> (kws \<noteq> [] \<longrightarrow>
             keyword_score k kws =
               Inr (py_int (rat_of_nat (count_assessment Optimal (keyword_results k))
                              / rat_of_nat (length kws) * 25)))
        \<and> (\<not> distinct kws \<longrightarrow> (\<exists>s. keyword_score k kws = Inr s \<and> s < 25)))
   \<and> (str_count (lower kw) (lower content) = 0 \<longrightarrow>
        (\<exists>k. check_keyword_usage content [kw, kw] = Inr k
           \<and> length (keyword_results k) = 1
           \<and> overall_assessment k = ''0 of 2 keywords used optimally.''))"
proof -
  obtain k recs where k: "check_keyword_usage content kws = Inr k"
    and l: "keyword_loop content (headings_text content) (intro_text content) kws ([], [])
         = Inr (keyword_results k, recs)"
    using check_keyword_usage_total by blast
  have keys: "distinct (map fst (keyword_results k))" "set (map fst (keyword_results k)) = set kws"
    using check_keyword_usage_keys [OF k] by simp_all
  have summary: "overall_assessment k =
            (if count_assessment Missing (keyword_results k) = length kws then
               ''No target keywords found in content.''
             else if count_assessment Optimal (keyword_results k) = length kws then
               ''All keywords are used optimally.''
             else
               str_nat (count_assessment Optimal (keyword_results k)) @ '' of ''
                 @ str_nat (length kws) @ '' keywords used optimally.'')"
    by (rule check_keyword_usage_summary [OF k])
  have dup: "\<exists>s. keyword_score k kws = Inr s \<and> s < 25" if nd: "\<not> distinct kws"
  proof -
    from nd have ne: "kws \<noteq> []" by auto
    have lt: "count_assessment Optimal (keyword_results k) < length kws"
      using optimal_le_keywords(2) [OF k nd] .
    have "py_int (rat_of_nat (count_assessment Optimal (keyword_results k))
                 / rat_of_nat (length kws) * 25) < 25"
      by (rule py_int_ratio_bounds(3)) (use lt ne in simp_all)
    with keyword_score_eq [OF ne, of k] show ?thesis by simp
  qed
  have first: "check_keyword_usage content kws = Inr k
        \<and> distinct (map fst (keyword_results k))
        \<and> set (map fst (keyword_results k)) = set kws
        \<and> overall_assessment k =
            (if count_assessment Missing (keyword_results k) = length kws then
               ''No target keywords found in content.''
             else if count_assessment Optimal (keyword_results k) = length kws then
               ''All keywords are used optimally.''
             else
               str_nat (count_assessment Optimal (keyword_results k)) @ '' of ''
                 @ str_nat (length kws) @ '' keywords used optimally.'')
        \<and> (kws \<noteq> [] \<longrightarrow>
             keyword_score k kws =
               Inr (py_int (rat_of_nat (count_assessment Optimal (keyword_results k))
                              / rat_of_nat (length kws) * 25)))
        \<and> (\<not> distinct kws \<longrightarrow> (\<exists>s. keyword_score k kws = Inr s \<and> s < 25))"
    using k keys summary dup keyword_score_eq [of kws k]
    by (intro conjI impI) assumption+
  show ?thesis
  proof (rule conjI)
    from first show "\<exists>k. check_keyword_usage content kws = Inr k
        \<and> distinct (map fst (keyword_results k))
        \<and> set (map fst (keyword_results k)) = set kws
        \<and> overall_assessment k =
            (if count_assessment Missing (keyword_results k) = length kws then
               ''No target keywords found in content.''
             else if count_assessment Optimal (keyword_results k) = length kws then
               ''All keywords are used optimally.''
             else
               str_nat (count_assessment Optimal (keyword_results k)) @ '' of ''
                 @ str_nat (length kws) @ '' keywords used optimally.'')
        \<and> (kws \<noteq> [] \<longrightarrow>
             keyword_score k kws =
               Inr (py_int (rat_of_nat (count_assessment Optimal (keyword_results k))
                              / rat_of_nat (length kws) * 25)))
        \<and> (\<not> distinct kws \<longrightarrow> (\<exists>s. keyword_score k kws = Inr s \<and> s < 25))"
      by (rule exI)
  next
    show "str_count (lower kw) (lower content) = 0 \<longrightarrow>
        (\<exists>k. check_keyword_usage content [kw, kw] = Inr k
           \<and> length (keyword_results k) = 1
           \<and> overall_assessment k = ''0 of 2 keywords used optimally.'')"
      by (rule impI) (rule two_absent_keywords)
  qed
qed

theorem duplicate_keywords_witness:
  "\<not> distinct [''seo'', ''seo'']
   \<and> str_count (lower ''seo'') (lower ''hello world'') = 0
   \<and> (\<exists>k. check_keyword_usage ''hello world'' [''seo'', ''seo''] = Inr k
         \<and> length (keyword_results k) = 1
         \<and> overall_assessment k = ''0 of 2 keywords used optimally.''
         \<and> (\<exists>s. keyword_score k [''seo'', ''seo''] = Inr s \<and> s < 25))"
proof -
  have nd: "\<not> distinct [''seo'', ''seo'']" by simp
  have z: "str_count (lower ''seo'') (lower ''hello world'') = 0" by code_simp
  from duplicate_keywords [of "''hello world''" "[''seo'', ''seo'']" "''seo''"]
  obtain k where k: "check_keyword_usage ''hello world'' [''seo'', ''seo''] = Inr k"
    and s: "\<not> distinct [''seo'', ''seo''] \<longrightarrow>
              (\<exists>s. keyword_score k [''seo'', ''seo''] = Inr s \<and> s < 25)"
    by blast
  from duplicate_keywords [of "''hello world''" "[''seo'', ''seo'']" "''seo''"] z
  obtain k' where k': "check_keyword_usage ''hello world'' [''seo'', ''seo''] = Inr k'"
    and r: "length (keyword_results k') = 1"
      "overall_assessment k' = ''0 of 2 keywords used optimally.''"
    by blast
  from k k' have "k' = k" by simp
  with k r s nd z show ?thesis by blast
qed

section \<open>The composite score\<close>

lemma analyze_content_completeness_Some:
  "\<exists>c rest. analyze_content_completeness content (Some m) = Inr c
     \<and> word_count c = length (split content)
     \<and> has_intro c = (case stripped_nonempty (split_nn content) of
                         [] \<Rightarrow> False | p # _ \<Rightarrow> length (split p) \<ge> 30)
     \<and> has_conclusion c = (stripped_nonempty (split_nn content) \<noteq> []
                         \<and> length (split (last (stripped_nonempty (split_nn content)))) \<ge> 30)
     \<and> has_bullet_points c = (str_in bullet content \<or> str_in ''*'' content \<or> str_in ''-'' content)
     \<and> has_cta c = list_ex (\<lambda>phrase. str_in phrase (lower content)) cta_phrases"
  by (simp add: analyze_content_completeness_def int_lt_def Let_def)

lemma analyze_content_completeness_total:
  "\<exists>c. analyze_content_completeness content (Some m) = Inr c"
  by (simp add: analyze_content_completeness_def int_lt_def Let_def)

lemma completeness_score_Some:
  "completeness_score c (Some m) =
     Inr ((if int (word_count c) \<ge> m then 10 else 0) + (if has_intro c then 5 else 0)
            + (if has_conclusion c then 5 else 0)
            + (if has_bullet_points c then 3 else 0)
            + (if has_cta c then 2 else 0))"
  by (simp add: completeness_score_def int_ge_def)

lemma render_word_count_Some:
  "\<exists>line. render_word_count c (Some m) = Inr line"
  by (simp add: render_word_count_def int_lt_def)

lemma analyze_readability_total: "\<exists>r. analyze_readability content = Inr r"
proof (cases "length (stripped_nonempty (re_split_sentences content)) = 0 \<or> length (split content) = 0")
  case True
  from analyze_readability_invalid [OF True] show ?thesis by blast
next
  case False
  then have "length (stripped_nonempty (re_split_sentences content)) \<noteq> 0"
    and "length (split content) \<noteq> 0" by simp_all
  from analyze_readability_valid [OF this] show ?thesis by blast
qed

lemma analyse_Some:
  assumes ne: "kws \<noteq> []"
  shows "\<exists>r k c ks cs line.
           analyze_readability content = Inr r
         \<and> check_keyword_usage content kws = Inr k
         \<and> analyze_content_completeness content (Some m) = Inr c
         \<and> keyword_score k kws = Inr ks
         \<and> completeness_score c (Some m) = Inr cs
         \<and> render_word_count c (Some m) = Inr line
         \<and> analyse content kws (Some m) =
             Inr \<lparr> total_score =
                     readability_score r + heading_score (analyze_headings content) + ks + cs,
                   score_components =
                     [readability_score r, heading_score (analyze_headings content), ks, cs],
                   verdict =
                     verdict_of
                       (readability_score r + heading_score (analyze_headings content)
                          + ks + cs),
                   word_count_line = line,
                   readability_part = r, heading_part = analyze_headings content,
                   keyword_part = k, completeness_part = c,
                   all_recommendations =
                     r_recommendations r @ h_recommendations (analyze_headings content)
                       @ k_recommendations k @ c_recommendations c \<rparr>"
proof -
  obtain r where r: "analyze_readability content = Inr r"
    using analyze_readability_total by blast
  obtain k where k: "check_keyword_usage content kws = Inr k"
    using check_keyword_usage_total by blast
  obtain c where c: "analyze_content_completeness content (Some m) = Inr c"
    using analyze_content_completeness_total by blast
  obtain ks where ks: "keyword_score k kws = Inr ks"
    using keyword_score_eq [OF ne] by blast
  obtain cs where cs: "completeness_score c (Some m) = Inr cs"
    using completeness_score_Some by blast
  obtain line where line: "render_word_count c (Some m) = Inr line"
    using render_word_count_Some by blast
  have "analyse content kws (Some m) =
             Inr \<lparr> total_score =
                     readability_score r + heading_score (analyze_headings content) + ks + cs,
                   score_components =
                     [readability_score r, heading_score (analyze_headings content), ks, cs],
                   verdict =
                     verdict_of
                       (readability_score r + heading_score (analyze_headings content)
                          + ks + cs),
                   word_count_line = line,
                   readability_part = r, heading_part = analyze_headings content,
                   keyword_part = k, completeness_part = c,
                   all_recommendations =
                     r_recommendations r @ h_recommendations (analyze_headings content)
                       @ k_recommendations k @ c_recommendations c \<rparr>"
    by (simp add: analyse_def r k c ks cs line Let_def add.assoc)
  with r k c ks cs line show ?thesis by blast
qed

lemma run_valid:
  "content \<noteq> [] \<Longrightarrow> kws \<noteq> [] \<Longrightarrow> min_word_count_of mw = Some m \<Longrightarrow>
     analyse content kws (Some m) = Inr rep \<Longrightarrow>
     run (Decoded (Some content) (Some kws) mw) = Rendered rep"
  by (simp add: run_def Let_def)

lemma readability_score_bounds: "0 \<le> readability_score r \<and> readability_score r \<le> 25"
  by (simp add: readability_score_def)

lemma readability_score_cases:
  "readability_score r =
     (case score r of Good \<Rightarrow> 25 | Moderate \<Rightarrow> 15 | Difficult \<Rightarrow> 5 | Invalid \<Rightarrow> 5)"
  by (cases "score r") (simp_all add: readability_score_def)

lemma heading_score_bounds: "0 \<le> heading_score h \<and> heading_score h \<le> 25"
  by (simp add: heading_score_def)

lemma keyword_score_bounds:
  assumes "check_keyword_usage content kws = Inr k" and "kws \<noteq> []"
  shows "0 \<le> py_int (rat_of_nat (count_assessment Optimal (keyword_results k))
                        / rat_of_nat (length kws) * 25)"
    and "py_int (rat_of_nat (count_assessment Optimal (keyword_results k))
                   / rat_of_nat (length kws) * 25) \<le> 25"
proof -
  have le: "count_assessment Optimal (keyword_results k) \<le> length kws"
    by (rule optimal_le_keywords(1) [OF assms(1)])
  have pos: "0 < length kws" using assms(2) by simp
  show "0 \<le> py_int (rat_of_nat (count_assessment Optimal (keyword_results k))
                        / rat_of_nat (length kws) * 25)"
    by (rule py_int_ratio_bounds(1) [OF le pos])
  show "py_int (rat_of_nat (count_assessment Optimal (keyword_results k))
                   / rat_of_nat (length kws) * 25) \<le> 25"
    by (rule py_int_ratio_bounds(2) [OF le pos])
qed

lemma completeness_points_bounds:
  "0 \<le> (if a then 10 else 0) + (if b then 5 else 0) + (if c then 5 else 0)
          + (if d then 3 else 0) + (if e then 2 else (0::int))
   \<and> (if a then 10 else 0) + (if b then 5 else 0) + (if c then 5 else 0)
          + (if d then 3 else 0) + (if e then 2 else (0::int)) \<le> 25"
  by simp

text \<open>
  C2: for a non-empty content, a non-empty keyword list and an integer minimum word
  count (given, or the default 300), the tool returns a report and its total score lies
  between 0 and 100.
\<close>

theorem total_score_range:
  assumes "content \<noteq> []" and "kws \<noteq> []" and "min_word_count_of mw = Some m"
  shows "\<exists>rep. run (Decoded (Some content) (Some kws) mw) = Rendered rep
           \<and> 0 \<le> total_score rep \<and> total_score rep \<le> 100"
proof -
  from analyse_Some [OF assms(2), of content m] obtain r k c ks cs line where
    k: "check_keyword_usage content kws = Inr k"
    and ks: "keyword_score k kws = Inr ks"
    and cs: "completeness_score c (Some m) = Inr cs"
    and a: "analyse content kws (Some m) =
             Inr \<lparr> total_score =
                     readability_score r + heading_score (analyze_headings content) + ks + cs,
                   score_components =
                     [readability_score r, heading_score (analyze_headings content), ks, cs],
                   verdict =
                     verdict_of
                       (readability_score r + heading_score (analyze_headings content)
                          + ks + cs),
                   word_count_line = line,
                   readability_part = r, heading_part = analyze_headings content,
                   keyword_part = k, completeness_part = c,
                   all_recommendations =
                     r_recommendations r @ h_recommendations (analyze_headings content)
                       @ k_recommendations k @ c_recommendations c \<rparr>"
    by blast
  from ks keyword_score_eq [OF assms(2), of k] keyword_score_bounds [OF k assms(2)]
  have b3: "0 \<le> ks \<and> ks \<le> 25" by simp
  from cs completeness_score_Some [of c m]
    completeness_points_bounds [of "int (word_count c) \<ge> m" "has_intro c" "has_conclusion c"
      "has_bullet_points c" "has_cta c"]
  have b4: "0 \<le> cs \<and> cs \<le> 25" by simp
  have b1: "0 \<le> readability_score r \<and> readability_score r \<le> 25"
    by (rule readability_score_bounds)
  have b2: "0 \<le> heading_score (analyze_headings content)
              \<and> heading_score (analyze_headings content) \<le> 25"
    by (rule heading_score_bounds)
  from run_valid [OF assms a] b1 b2 b3 b4 show ?thesis by simp
qed

theorem total_score_range_witness:
  "''SEO tips. Sign up'' \<noteq> [] \<and> [''seo'', ''tips''] \<noteq> []
   \<and> min_word_count_of None = Some 300
   \<and> (\<exists>rep. run (Decoded (Some ''SEO tips. Sign up'') (Some [''seo'', ''tips'']) None)
               = Rendered rep
          \<and> 0 \<le> total_score rep \<and> total_score rep \<le> 100)"
proof -
  have m: "min_word_count_of None = Some 300" by (simp add: min_word_count_of_def)
  from total_score_range [of "''SEO tips. Sign up''" "[''seo'', ''tips'']" None 300] m
  show ?thesis by simp
qed

lemma optimal_results_card:
  assumes "check_keyword_usage content kws = Inr k"
  shows "length (filter (\<lambda>(kw, v). assessment v = Optimal) (keyword_results k))
           = card {kw \<in> set kws.
                     \<exists>v. keyword_result_of content kws kw = Some v \<and> assessment v = Optimal}"
proof -
  let ?res = "keyword_results k"
  let ?A = "{x \<in> set ?res. assessment (snd x) = Optimal}"
  have dk: "distinct (map fst ?res)" and keys: "fst ` set ?res = set kws"
    using check_keyword_usage_keys [OF assms] by simp_all
  from dk have dr: "distinct ?res" and inj: "inj_on fst (set ?res)"
    by (simp_all add: distinct_map)
  have look: "keyword_result_of content kws kw = map_of ?res kw" for kw
    using assms by (simp add: keyword_result_of_def)
  have "card (set (filter (\<lambda>(kw, v). assessment v = Optimal) ?res))
          = length (filter (\<lambda>(kw, v). assessment v = Optimal) ?res)"
    by (rule distinct_card) (simp add: dr)
  then have "length (filter (\<lambda>(kw, v). assessment v = Optimal) ?res)
          = card (set (filter (\<lambda>(kw, v). assessment v = Optimal) ?res))"
    by simp
  also have "set (filter (\<lambda>(kw, v). assessment v = Optimal) ?res) = ?A"
    by auto
  also have "card ?A = card (fst ` ?A)"
    by (rule card_image [symmetric]) (rule inj_on_subset [OF inj], auto)
  also have "fst ` ?A
          = {kw \<in> set kws.
               \<exists>v. keyword_result_of content kws kw = Some v \<and> assessment v = Optimal}"
  proof (intro set_eqI iffI)
    fix kw
    assume "kw \<in> fst ` ?A"
    then obtain v where m: "(kw, v) \<in> set ?res" and o: "assessment v = Optimal"
      by auto
    from m dk have "map_of ?res kw = Some v" by simp
    moreover from m keys have "kw \<in> set kws" by force
    ultimately show "kw \<in> {kw \<in> set kws.
               \<exists>v. keyword_result_of content kws kw = Some v \<and> assessment v = Optimal}"
      using o by (simp add: look)
  next
    fix kw
    assume "kw \<in> {kw \<in> set kws.
               \<exists>v. keyword_result_of content kws kw = Some v \<and> assessment v = Optimal}"
    then obtain v where "map_of ?res kw = Some v" and o: "assessment v = Optimal"
      by (auto simp: look)
    then have "(kw, v) \<in> set ?res" by (simp add: map_of_SomeD)
    with o show "kw \<in> fst ` ?A" by force
  qed
  finally show ?thesis .
qed

text \<open>
  C3: for a valid request the total score is the sum of four components, each between
  0 and 25: readability (25 for \<open>Good\<close>, 15 for \<open>Moderate\<close>, 5 for \<open>Difficult\<close> and
  \<open>Invalid\<close>); headings (10 for exactly one H1, 10 for an H2, 5 for an H3); keywords
  (the number of results labelled \<open>Optimal\<close>, which is the number of target keywords
  with that label, over the length of the keyword list, times 25, truncated);
  completeness (10 for enough words, 5 for an introduction, 5 for a conclusion, 3 for
  bullet points, 2 for a call to action).
\<close>

theorem score_is_sum_of_components:
  assumes "content \<noteq> []" and "kws \<noteq> []" and "min_word_count_of mw = Some m"
  shows "\<exists>rep r k c.
           run (Decoded (Some content) (Some kws) mw) = Rendered rep
         \<and> analyze_readability content = Inr r
         \<and> check_keyword_usage content kws = Inr k
         \<and> analyze_content_completeness content (Some m) = Inr c
         \<and> score_components rep =
             [(case score r of Good \<Rightarrow> 25 | Moderate \<Rightarrow> 15 | Difficult \<Rightarrow> 5 | Invalid \<Rightarrow> 5),
              (if h1_count (analyze_headings content) = 1 then 10 else 0)
                + (if h2_count (analyze_headings content) > 0 then 10 else 0)
                + (if h3_count (analyze_headings content) > 0 then 5 else 0),
              py_int (rat_of_nat
                        (length (filter (\<lambda>(kw, v). assessment v = Optimal) (keyword_results k)))
                        / rat_of_nat (length kws) * 25),
              (if int (word_count c) \<ge> m then 10 else 0)
                + (if has_intro c then 5 else 0)
                + (if has_conclusion c then 5 else 0)
                + (if has_bullet_points c then 3 else 0)
                + (if has_cta c then 2 else 0)]
         \<and> length (filter (\<lambda>(kw, v). assessment v = Optimal) (keyword_results k))
             = card {kw \<in> set kws.
                       \<exists>v. keyword_result_of content kws kw = Some v \<and> assessment v = Optimal}
         \<and> total_score rep = sum_list (score_components rep)
         \<and> list_all (\<lambda>x. 0 \<le> x \<and> x \<le> 25) (score_components rep)"
proof -
  from analyse_Some [OF assms(2), of content m] obtain r k c ks cs line where
    r: "analyze_readability content = Inr r"
    and k: "check_keyword_usage content kws = Inr k"
    and c: "analyze_content_completeness content (Some m) = Inr c"
    and ks: "keyword_score k kws = Inr ks"
    and cs: "completeness_score c (Some m) = Inr cs"
    and a: "analyse content kws (Some m) =
             Inr \<lparr> total_score =
                     readability_score r + heading_score (analyze_headings content) + ks + cs,
                   score_components =
                     [readability_score r, heading_score (analyze_headings content), ks, cs],
                   verdict =
                     verdict_of
                       (readability_score r + heading_score (analyze_headings content)
                          + ks + cs),
                   word_count_line = line,
                   readability_part = r, heading_part = analyze_headings content,
                   keyword_part = k, completeness_part = c,
                   all_recommendations =
                     r_recommendations r @ h_recommendations (analyze_headings content)
                       @ k_recommendations k @ c_recommendations c \<rparr>"
      (is "_ = Inr ?rep")
    by blast
  have run: "run (Decoded (Some content) (Some kws) mw) = Rendered ?rep"
    by (rule run_valid [OF assms a])
  have e3: "ks = py_int (rat_of_nat
                        (length (filter (\<lambda>(kw, v). assessment v = Optimal) (keyword_results k)))
                        / rat_of_nat (length kws) * 25)"
    using ks keyword_score_eq [OF assms(2), of k] by (simp add: count_assessment_def)
  have e4: "cs = (if int (word_count c) \<ge> m then 10 else 0)
                + (if has_intro c then 5 else 0)
                + (if has_conclusion c then 5 else 0)
                + (if has_bullet_points c then 3 else 0)
                + (if has_cta c then 2 else 0)"
    using cs completeness_score_Some [of c m] by simp
  have b3: "0 \<le> ks \<and> ks \<le> 25"
    using ks keyword_score_eq [OF assms(2), of k] keyword_score_bounds [OF k assms(2)]
    by simp
  have b4: "0 \<le> cs \<and> cs \<le> 25"
    unfolding e4 by (rule completeness_points_bounds)
  have comps: "score_components ?rep =
             [(case score r of Good \<Rightarrow> 25 | Moderate \<Rightarrow> 15 | Difficult \<Rightarrow> 5 | Invalid \<Rightarrow> 5),
              (if h1_count (analyze_headings content) = 1 then 10 else 0)
                + (if h2_count (analyze_headings content) > 0 then 10 else 0)
                + (if h3_count (analyze_headings content) > 0 then 5 else 0),
              py_int (rat_of_nat
                        (length (filter (\<lambda>(kw, v). assessment v = Optimal) (keyword_results k)))
                        / rat_of_nat (length kws) * 25),
              (if int (word_count c) \<ge> m then 10 else 0)
                + (if has_intro c then 5 else 0)
                + (if has_conclusion c then 5 else 0)
                + (if has_bullet_points c then 3 else 0)
                + (if has_cta c then 2 else 0)]"
    using e3 e4 by (simp add: readability_score_cases heading_score_def)
  have card: "length (filter (\<lambda>(kw, v). assessment v = Optimal) (keyword_results k))
             = card {kw \<in> set kws.
                       \<exists>v. keyword_result_of content kws kw = Some v \<and> assessment v = Optimal}"
    by (rule optimal_results_card [OF k])
  have total: "total_score ?rep = sum_list (score_components ?rep)"
    by simp
  have range: "list_all (\<lambda>x. 0 \<le> x \<and> x \<le> 25) (score_components ?rep)"
    using b3 b4 readability_score_bounds [of r] heading_score_bounds [of "analyze_headings content"]
    by simp
  from run r k c comps card total range show ?thesis
    by (intro exI [of _ ?rep] exI [of _ r] exI [of _ k] exI [of _ c] conjI)
qed

theorem score_is_sum_of_components_witness:
  "scored_text \<noteq> [] \<and> [''seo'', ''zzz''] \<noteq> []
   \<and> min_word_count_of (Some (Some 40)) = Some 40
   \<and> (\<exists>rep k.
         run (Decoded (Some scored_text) (Some [''seo'', ''zzz'']) (Some (Some 40)))
           = Rendered rep
       \<and> check_keyword_usage scored_text [''seo'', ''zzz''] = Inr k
       \<and> map (\<lambda>(kw, v). (kw, assessment v)) (keyword_results k)
           = [(''seo'', Optimal), (''zzz'', Missing)]
       \<and> score_components rep = [5, 10, 12, 20]
       \<and> total_score rep = 47)"
proof -
  let ?input = "Decoded (Some scored_text) (Some [''seo'', ''zzz'']) (Some (Some 40))"
  have ne: "scored_text \<noteq> []" by (simp add: scored_text_def)
  have m: "min_word_count_of (Some (Some 40)) = Some 40" by (simp add: min_word_count_of_def)
  have ev: "(case run ?input of Rendered rep \<Rightarrow> Some (score_components rep) | Failure msg \<Rightarrow> None)
              = Some [5, 10, 12, 20]"
    by code_simp
  have evk: "(case check_keyword_usage scored_text [''seo'', ''zzz''] of
                Inr k \<Rightarrow> Some (map (\<lambda>(kw, v). (kw, assessment v)) (keyword_results k))
              | Inl e \<Rightarrow> None)
              = Some [(''seo'', Optimal), (''zzz'', Missing)]"
    by code_simp
  from score_is_sum_of_components [OF ne _ m, of "[''seo'', ''zzz'']"]
  obtain rep k where run: "run ?input = Rendered rep"
    and k: "check_keyword_usage scored_text [''seo'', ''zzz''] = Inr k"
    and total: "total_score rep = sum_list (score_components rep)"
    by auto
  from ev run have comps: "score_components rep = [5, 10, 12, 20]" by simp
  from evk k have labels: "map (\<lambda>(kw, v). (kw, assessment v)) (keyword_results k)
           = [(''seo'', Optimal), (''zzz'', Missing)]" by simp
  from total comps have "total_score rep = 47" by simp
  with ne m run k labels comps show ?thesis by auto
qed

section \<open>Invalid input\<close>

lemma analyse_null_min_word_count:
  "analyse content kws None = Inl (TypeError ''<'')"
proof -
  obtain r where r: "analyze_readability content = Inr r"
    using analyze_readability_total by blast
  obtain k where k: "check_keyword_usage content kws = Inr k"
    using check_keyword_usage_total by blast
  have c: "analyze_content_completeness content None = Inl (TypeError ''<'')"
    by (simp add: analyze_content_completeness_def int_lt_def Let_def)
  show ?thesis by (simp add: analyse_def r k c Let_def)
qed

text \<open>
  C7: bad input is answered with an error message, not with an exception. A text that
  is not JSON, a missing or empty content and a missing or empty keyword list each give
  their own message, the content being checked first; and an exception raised on the
  way (a JSON value that is not an object, the comparison of the word count with a
  \<^verbatim>\<open>null\<close> minimum) is caught and reported as a message too.
\<close>

theorem invalid_input_reported:
  "run Malformed = Failure ''Error: Invalid JSON input.''
   \<and> run (NotAnObject ty)
       = Failure (''Error executing Content Analysis tool: '' @ str_error (AttributeError ty))
   \<and> run (Decoded None k m) = Failure ''Error: No content provided for analysis.''
   \<and> run (Decoded (Some []) k m) = Failure ''Error: No content provided for analysis.''
   \<and> run (Decoded (Some (c # cs)) None m)
       = Failure ''Error: No target keywords provided for analysis.''
   \<and> run (Decoded (Some (c # cs)) (Some []) m)
       = Failure ''Error: No target keywords provided for analysis.''
   \<and> run (Decoded (Some (c # cs)) (Some (kw # kws)) (Some None))
       = Failure (''Error executing Content Analysis tool: '' @ str_error (TypeError ''<''))"
  by (simp add: run_def Let_def min_word_count_of_def analyse_null_min_word_count)

theorem invalid_input_reported_witness:
  "run (Decoded (Some []) (Some [''seo'']) None)
     = Failure ''Error: No content provided for analysis.''
   \<and> run (Decoded (Some ''some text'') (Some []) (Some (Some 300)))
     = Failure ''Error: No target keywords provided for analysis.''"
  using invalid_input_reported [where k = "Some [''seo'']" and m = None]
    invalid_input_reported
      [where m = "Some (Some 300)" and c = "CHR ''s''" and cs = "''ome text''"]
  by simp

section \<open>What the minimum word count changes\<close>





text \<open>
  C9, as it stands: between two runs that differ in the minimum word count only, nothing
  but the completeness analysis and the word count line changes. For the text
  \<open>frame_text\<close> and the keyword \<^verbatim>\<open>word\<close> the minimum 2 gives a total of 50 and
  the verdict "Moderate" with 7 recommendations, the minimum 300 a total of 40 and the
  verdict "Needs Work" with 8 recommendations: the total, the verdict and the list of all
  recommendations change as well.
\<close>

theorem min_word_count_changes_verdict:
  "map_option total_score
     (report_of (run (Decoded (Some frame_text) (Some [''word'']) (Some (Some 2))))) = Some 50
   \<and> map_option total_score
       (report_of (run (Decoded (Some frame_text) (Some [''word'']) (Some (Some 300)))))
       = Some 40
   \<and> map_option verdict
       (report_of (run (Decoded (Some frame_text) (Some [''word'']) (Some (Some 2)))))
       = Some ''**Moderate.** Your content needs several improvements to be fully optimized.''
   \<and> map_option verdict
       (report_of (run (Decoded (Some frame_text) (Some [''word'']) (Some (Some 300)))))
       = Some (''**Needs Work.** Your content requires significant optimization ''
                 @ ''to perform well in search.'')
   \<and> map_option (length \<circ> all_recommendations)
       (report_of (run (Decoded (Some frame_text) (Some [''word'']) (Some (Some 2))))) = Some 7
   \<and> map_option (length \<circ> all_recommendations)
       (report_of (run (Decoded (Some frame_text) (Some [''word'']) (Some (Some 300)))))
       = Some 8"
  by code_simp



end
